theory Spec2Isabelle
  imports Complex_Main "HOL-Library.Log_Nat"
begin

section \<open>Data model of \<^verbatim>\<open>server.js\<close>\<close>

text \<open>
  The service is one Express application over a MongoDB store reached through Mongoose.
  The model follows the source file top to bottom: the documents of the schemas, the
  session tokens of the \<^verbatim>\<open>jsonwebtoken\<close> library, requests and responses, the
  handlers as programs over store calls, and Express's routing table.

  A JavaScript value that is a string or \<^verbatim>\<open>undefined\<close> is a \<open>string option\<close>;
  an ObjectId is represented by its hexadecimal string.
\<close>

subsection \<open>Numbers\<close>

text \<open>
  A JavaScript Number is a double: a finite value, given by the rational it denotes, an
  infinity or NaN (the two zeros are not told apart). The result of an arithmetic
  operation is the exact result rounded to the nearest double, ties to the even
  significand: 53 significant bits, the least exponent that of the subnormal numbers, and
  an infinity from \<open>2 ^ 1024\<close> on.
\<close>

datatype number = Finite rat | PosInfinity | NegInfinity | NaN

definition floor_log2 :: "rat \<Rightarrow> int" where
  \<comment> \<open>for \<open>a > 0\<close>, the \<open>e\<close> with \<open>2 powi e \<le> a < 2 powi (e + 1)\<close>\<close>
  "floor_log2 a =
     (case quotient_of a of (p, d) \<Rightarrow>
        (let e0 = bitlen p - bitlen d in if 2 powi e0 \<le> a then e0 else e0 - 1))"

definition round_half_even :: "rat \<Rightarrow> int" where
  "round_half_even m =
     (let f = \<lfloor>m\<rfloor>; r = m - of_int f
      in if r < 1 / 2 then f else if 1 / 2 < r then f + 1 else if even f then f else f + 1)"

definition round_double :: "rat \<Rightarrow> rat" where
  "round_double q =
     (if q = 0 then 0
      else
        (let a = \<bar>q\<bar>;
             k = max (floor_log2 a - 52) (- 1074);
             n = round_half_even (a / 2 powi k)
         in sgn q * of_int n * 2 powi k))"

definition of_rat_number :: "rat \<Rightarrow> number" where
  "of_rat_number q =
     (let r = round_double q
      in if 2 ^ 1024 \<le> r then PosInfinity
         else if r \<le> - (2 ^ 1024) then NegInfinity
         else Finite r)"

definition minus_one :: "number \<Rightarrow> number" where
  \<comment> \<open>\<^verbatim>\<open>x - 1\<close>\<close>
  "minus_one x =
     (case x of
        Finite q \<Rightarrow> of_rat_number (q - 1)
      | PosInfinity \<Rightarrow> PosInfinity
      | NegInfinity \<Rightarrow> NegInfinity
      | NaN \<Rightarrow> NaN)"

fun le_zero :: "number \<Rightarrow> bool" where
  \<comment> \<open>\<^verbatim>\<open>x <= 0\<close>\<close>
  "le_zero (Finite q) = (q \<le> 0)"
| "le_zero PosInfinity = False"
| "le_zero NegInfinity = True"
| "le_zero NaN = False"

fun ge_zero :: "number \<Rightarrow> bool" where
  \<comment> \<open>\<^verbatim>\<open>x >= 0\<close>, the schema's validator \<^verbatim>\<open>min: 0\<close>\<close>
  "ge_zero (Finite q) = (0 \<le> q)"
| "ge_zero PosInfinity = True"
| "ge_zero NegInfinity = False"
| "ge_zero NaN = False"

subsection \<open>Documents\<close>

datatype bcrypt_hash = BcryptHash string string
  \<comment> \<open>a bcrypt digest, symbolically: the salt and the password it was computed from\<close>

record user =
  user_id :: string
  name :: string
  email :: string
  number :: string
  password :: bcrypt_hash

record blog =
  blog_title :: string
  content :: string
  image :: "string option"
  blog_createdAt :: nat
  author :: "string option"

record event =
  title :: string
  description :: string
  category :: string
  date :: string
  time :: string
  location :: string
  imageUrl :: "string option"
  availableSeats :: number
  registrations :: "string option list"
  createdAt :: nat

text \<open>
  The schema of an event declares \<^verbatim>\<open>availableSeats\<close> a Number with \<^verbatim>\<open>min: 0\<close>,
  with no check that it is whole, and \<^verbatim>\<open>registrations\<close> an array of ObjectIds; an
  element of the array is \<open>None\<close> when it is \<^verbatim>\<open>null\<close>.

  The store: the \<^verbatim>\<open>users\<close> collection in insertion order, the \<^verbatim>\<open>blogs\<close> and
  \<^verbatim>\<open>events\<close> collections keyed by \<^verbatim>\<open>_id\<close>.
\<close>

record store =
  users :: "user list"
  blogs :: "string \<rightharpoonup> blog"
  events :: "string \<rightharpoonup> event"

subsection \<open>Library functions the handlers call\<close>

text \<open>
  Modelled from the spec: the salted password hash of the Credential Store (the
  \<^verbatim>\<open>bcryptjs\<close> package, which is not part of the source tree).
  \<^verbatim>\<open>bcrypt.compare(password, hash)\<close> is true exactly for the password the digest was
  computed from (an ideal hash).
\<close>

fun bcrypt_compare :: "string \<Rightarrow> bcrypt_hash \<Rightarrow> bool" where
  "bcrypt_compare s (BcryptHash salt pw) = (s = pw)"

text \<open>
  Modelled from the spec: a well-formed identity reference and its conversion to a typed
  reference (\<^verbatim>\<open>mongoose.Types.ObjectId\<close>; the library is not part of the source tree).
  \<^verbatim>\<open>ObjectId.isValid(v)\<close> on a string or \<^verbatim>\<open>undefined\<close>: a string of 24
  hexadecimal digits is a valid ObjectId, \<^verbatim>\<open>undefined\<close> is not. \<^verbatim>\<open>ObjectId(v)\<close>
  converts such a string to the ObjectId, whose hexadecimal form is in lower case; the
  conversion is taken to succeed on every valid string, as the handler expects.
\<close>

definition is_hex :: "char \<Rightarrow> bool" where
  "is_hex c = (c \<in> set ''0123456789abcdefABCDEF'')"

definition ObjectId_isValid :: "string option \<Rightarrow> bool" where
  "ObjectId_isValid v =
     (case v of None \<Rightarrow> False | Some s \<Rightarrow> length s = 24 \<and> list_all is_hex s)"

definition hex_lower :: "char \<Rightarrow> char" where
  "hex_lower c =
     (if c = CHR ''A'' then CHR ''a'' else if c = CHR ''B'' then CHR ''b''
      else if c = CHR ''C'' then CHR ''c'' else if c = CHR ''D'' then CHR ''d''
      else if c = CHR ''E'' then CHR ''e'' else if c = CHR ''F'' then CHR ''f'' else c)"

definition ObjectId :: "string option \<Rightarrow> string option" where
  "ObjectId v = map_option (map hex_lower) v"

subsection \<open>Session tokens\<close>

text \<open>
  Modelled from the spec: the Token Service (\<^verbatim>\<open>jwt.sign\<close> and \<^verbatim>\<open>jwt.verify\<close> of the
  \<^verbatim>\<open>jsonwebtoken\<close> package, which is not part of the source tree). A token is a signed
  credential embedding the identity, the time of issue and the expiry; verification fails
  as malformed when the token cannot be parsed or its signature does not check, and as
  expired when the current time has reached the embedded expiry. Times are clock
  timestamps in seconds. Signatures are ideal: a token verifies under the key it was
  signed with and under no other.
\<close>

record jwt_payload =
  jwt_userId :: string
  iat :: nat
  exp :: nat

datatype token =
    Raw string                \<comment> \<open>a string that is not the serialisation of a signed token\<close>
  | Jwt jwt_payload string    \<comment> \<open>the payload, signed with the given key\<close>

datatype jwt_error = JsonWebTokenError | TokenExpiredError

definition jwt_sign :: "string \<Rightarrow> string \<Rightarrow> nat \<Rightarrow> nat \<Rightarrow> token" where
  \<comment> \<open>\<^verbatim>\<open>jwt.sign({ userId }, key, { expiresIn })\<close> at clock time \<open>now\<close>, the lifetime in seconds\<close>
  "jwt_sign uid key lifetime now =
     Jwt \<lparr>jwt_userId = uid, iat = now, exp = now + lifetime\<rparr> key"

fun jwt_verify :: "token \<Rightarrow> string \<Rightarrow> nat \<Rightarrow> jwt_error + jwt_payload" where
  "jwt_verify (Raw s) key now = Inl JsonWebTokenError"
| "jwt_verify (Jwt p k) key now =
     (if k \<noteq> key then Inl JsonWebTokenError
      else if now \<ge> exp p then Inl TokenExpiredError
      else Inr p)"

subsection \<open>Process configuration, requests and responses\<close>

text \<open>
  \<open>JWT_SECRET\<close> is \<^verbatim>\<open>process.env.JWT_SECRET\<close>; \<open>clock\<close> is the time, in seconds, at
  which the request is handled.
\<close>

record ctx =
  JWT_SECRET :: "string option"
  clock :: nat

definition SECRET_KEY :: "ctx \<Rightarrow> string" where
  \<comment> \<open>\<^verbatim>\<open>process.env.JWT_SECRET || "your-secret-key"\<close>: the empty string is falsy\<close>
  "SECRET_KEY c =
     (case JWT_SECRET c of
        None \<Rightarrow> ''your-secret-key''
      | Some k \<Rightarrow> if k = [] then ''your-secret-key'' else k)"

datatype http_method = GET | POST | PUT | DELETE | OPTIONS

text \<open>
  A request, after \<^verbatim>\<open>express.json\<close> has parsed its body. The \<^verbatim>\<open>Authorization\<close>
  header is given by its pieces between single spaces (what \<^verbatim>\<open>split(' ')\<close> returns),
  each piece a token; the empty piece is \<open>Raw []\<close>. The body's fields are strings.
  \<open>params_id\<close> is \<^verbatim>\<open>req.params.id\<close>, set by the router; \<open>userId\<close> is
  \<^verbatim>\<open>req.userId\<close>, set by \<^verbatim>\<open>authenticate\<close>.
\<close>

record request =
  req_method :: http_method
  req_path :: "string list"
  headers_authorization :: "token list option"
  body :: "string \<rightharpoonup> string"
  params_id :: string
  userId :: "string option"

datatype payload =
    Msg string                  \<comment> \<open>\<^verbatim>\<open>{ message }\<close>\<close>
  | MsgToken string token       \<comment> \<open>\<^verbatim>\<open>{ message, token }\<close>\<close>
  | MsgEvent string event       \<comment> \<open>\<^verbatim>\<open>{ message, event }\<close>\<close>
  | NotRouted                   \<comment> \<open>Express's own answer when no route handles the request\<close>

record response =
  status :: nat
  json :: payload

subsection \<open>Handlers as programs over store calls\<close>

text \<open>
  A handler runs without interruption between two \<^verbatim>\<open>await\<close>s; at each \<^verbatim>\<open>await\<close>
  it issues one call to the store and continues with the call's result. A program is
  the tree of these calls:
  \<^item> \<open>Respond\<close>: the handler sends its response and ends;
  \<^item> \<open>Next\<close>: the handler calls \<^verbatim>\<open>next()\<close> with the request as it has updated it;
  \<^item> \<open>User_findOne\<close>: \<^verbatim>\<open>User.findOne({ email })\<close>;
  \<^item> \<open>Blog_findOneAndDelete\<close>: \<^verbatim>\<open>Blog.findOneAndDelete({ _id, author })\<close>;
  \<^item> \<open>Event_findById\<close>: \<^verbatim>\<open>Event.findById(id)\<close>;
  \<^item> \<open>Event_save\<close>: \<^verbatim>\<open>event.save()\<close> of a document that was read before, whose
    \<^verbatim>\<open>availableSeats\<close> was assigned and onto whose \<^verbatim>\<open>registrations\<close> values were
    pushed: Mongoose validates the assigned value against the schema (\<^verbatim>\<open>min: 0\<close>) and
    sends the assignment and the pushes as one update of the stored document.
  The last argument of a store call is the handler's \<^verbatim>\<open>catch\<close> branch, taken when
  the call's promise rejects. The store is available throughout: \<^verbatim>\<open>findById\<close>
  rejects when the id is not a well-formed ObjectId (the query cannot be cast), and
  \<^verbatim>\<open>save\<close> rejects when validation fails or the document is gone.
\<close>

datatype prog =
    Respond response
  | Next request
  | User_findOne "string option" "user option \<Rightarrow> prog" prog
  | Blog_findOneAndDelete string "string option" "blog option \<Rightarrow> prog" prog
  | Event_findById string "event option \<Rightarrow> prog" prog
  | Event_save string number "string option list" prog prog

text \<open>
  Modelled from the spec: the Resource Stores, read, update and delete backends whose
  calls the store executes one at a time (the Mongoose models; the library is not part of
  the source tree). \<^verbatim>\<open>findOne\<close> returns the first user with the email;
  \<^verbatim>\<open>findOneAndDelete\<close> deletes and returns the blog that has both the id and the
  author (the ids of stored blogs and the identities that tokens carry are ObjectIds,
  which the query casts); \<^verbatim>\<open>findById\<close> returns the event stored under a well-formed
  id and rejects an id that cannot be cast;
  \<^verbatim>\<open>save\<close> rejects an \<^verbatim>\<open>availableSeats\<close> that fails \<^verbatim>\<open>min: 0\<close> and a document
  that is no longer stored, and otherwise assigns \<^verbatim>\<open>availableSeats\<close> and appends the
  pushed values to the stored registrations.
\<close>

definition findOne_email :: "store \<Rightarrow> string option \<Rightarrow> user option" where
  "findOne_email s e = find (\<lambda>u. Some (email u) = e) (users s)"

definition findOneAndDelete :: "store \<Rightarrow> string \<Rightarrow> string option \<Rightarrow> blog option \<times> store" where
  "findOneAndDelete s i a =
     (case blogs s i of
        None \<Rightarrow> (None, s)
      | Some b \<Rightarrow> if author b = a then (Some b, s\<lparr>blogs := (blogs s)(i := None)\<rparr>)
                  else (None, s))"

definition findById :: "store \<Rightarrow> string \<Rightarrow> event option option" where
  \<comment> \<open>\<open>None\<close>: the promise rejects\<close>
  "findById s i = (if ObjectId_isValid (Some i) then Some (events s i) else None)"

definition save_event ::
  "store \<Rightarrow> string \<Rightarrow> number \<Rightarrow> string option list \<Rightarrow> store option" where
  "save_event s i seats pushed =
     (if \<not> ge_zero seats then None
      else case events s i of
        None \<Rightarrow> None
      | Some e \<Rightarrow> Some (s\<lparr>events := (events s)(i \<mapsto>
          e\<lparr>availableSeats := seats, registrations := registrations e @ pushed\<rparr>)\<rparr>))"

fun step :: "prog \<Rightarrow> store \<Rightarrow> prog \<times> store" where
  "step (Respond r) s = (Respond r, s)"
| "step (Next q) s = (Next q, s)"
| "step (User_findOne e k err) s = (k (findOne_email s e), s)"
| "step (Blog_findOneAndDelete i a k err) s =
     (case findOneAndDelete s i a of (r, s') \<Rightarrow> (k r, s'))"
| "step (Event_findById i k err) s =
     (case findById s i of None \<Rightarrow> (err, s) | Some found \<Rightarrow> (k found, s))"
| "step (Event_save i seats pushed ok err) s =
     (case save_event s i seats pushed of None \<Rightarrow> (err, s) | Some s' \<Rightarrow> (ok, s'))"

definition not_routed :: response where
  "not_routed = \<lparr>status = 404, json = NotRouted\<rparr>"

text \<open>A program run alone, from its first store call to its response.\<close>

primrec run :: "prog \<Rightarrow> store \<Rightarrow> store \<times> response" where
  "run (Respond r) s = (s, r)"
| "run (Next q) s = (s, not_routed)"
| "run (User_findOne e k err) s = run (k (findOne_email s e)) s"
| "run (Blog_findOneAndDelete i a k err) s =
     run (k (fst (findOneAndDelete s i a))) (snd (findOneAndDelete s i a))"
| "run (Event_findById i k err) s =
     (case findById s i of None \<Rightarrow> run err s | Some found \<Rightarrow> run (k found) s)"
| "run (Event_save i seats pushed ok err) s =
     (case save_event s i seats pushed of None \<Rightarrow> run err s | Some s' \<Rightarrow> run ok s')"

text \<open>
  Requests in flight together: the store executes one call at a time, in any order. A
  schedule names, call by call, the request whose next store call is executed.
\<close>

fun interleave :: "nat list \<Rightarrow> prog list \<Rightarrow> store \<Rightarrow> prog list \<times> store" where
  "interleave [] ps s = (ps, s)"
| "interleave (i # sched) ps s =
     (if i < length ps
      then case step (ps ! i) s of (p', s') \<Rightarrow> interleave sched (ps[i := p']) s'
      else interleave sched ps s)"

text \<open>\<^verbatim>\<open>next()\<close>: the rest of the stack continues where a handler calls it.\<close>

primrec chain :: "prog \<Rightarrow> (request \<Rightarrow> prog) \<Rightarrow> prog" where
  "chain (Respond r) f = Respond r"
| "chain (Next q) f = f q"
| "chain (User_findOne e k err) f = User_findOne e (\<lambda>x. chain (k x) f) (chain err f)"
| "chain (Blog_findOneAndDelete i a k err) f =
     Blog_findOneAndDelete i a (\<lambda>x. chain (k x) f) (chain err f)"
| "chain (Event_findById i k err) f = Event_findById i (\<lambda>x. chain (k x) f) (chain err f)"
| "chain (Event_save i seats pushed ok err) f =
     Event_save i seats pushed (chain ok f) (chain err f)"

subsection \<open>The handlers\<close>

definition reply :: "nat \<Rightarrow> string \<Rightarrow> prog" where
  \<comment> \<open>\<^verbatim>\<open>res.status(n).json({ message: m })\<close>\<close>
  "reply n m = Respond \<lparr>status = n, json = Msg m\<rparr>"

text \<open>
  \<^verbatim>\<open>authenticate\<close>: a header that is absent or the empty string (one empty piece) is
  falsy; the token is the second piece, falsy when there is none or it is empty; every
  exception of \<^verbatim>\<open>jwt.verify\<close> is caught by the one \<^verbatim>\<open>catch\<close>.
\<close>

definition authenticate :: "ctx \<Rightarrow> request \<Rightarrow> prog" where
  "authenticate c req =
     (case headers_authorization req of
        None \<Rightarrow> reply 401 ''Authentication required''
      | Some authHeader \<Rightarrow>
          if authHeader = [Raw []] then reply 401 ''Authentication required''
          else
            (case drop 1 authHeader of
               [] \<Rightarrow> reply 401 ''Authentication required''
             | tok # rest \<Rightarrow>
                 if tok = Raw [] then reply 401 ''Authentication required''
                 else
                   (case jwt_verify tok (SECRET_KEY c) (clock c) of
                      Inl err \<Rightarrow> reply 401 ''Invalid token''
                    | Inr decoded \<Rightarrow> Next (req\<lparr>userId := Some (jwt_userId decoded)\<rparr>))))"

definition expiresIn :: nat where
  \<comment> \<open>\<^verbatim>\<open>expiresIn: "1h"\<close>, in seconds\<close>
  "expiresIn = 60 * 60"

text \<open>
  \<^verbatim>\<open>POST /api/login\<close>. \<^verbatim>\<open>bcrypt.compare\<close> rejects when the password is not a
  string, which the handler's \<^verbatim>\<open>catch\<close> answers with status 500.
\<close>

definition login :: "ctx \<Rightarrow> request \<Rightarrow> prog" where
  "login c req =
     User_findOne (body req ''email'')
       (\<lambda>found. case found of
          None \<Rightarrow> reply 401 ''Invalid email or password''
        | Some u \<Rightarrow>
            (case body req ''password'' of
               None \<Rightarrow> reply 500 ''Server error during login''
             | Some pw \<Rightarrow>
                 if \<not> bcrypt_compare pw (password u)
                 then reply 401 ''Invalid email or password''
                 else Respond \<lparr>status = 200,
                   json = MsgToken ''Login successful''
                     (jwt_sign (user_id u) (SECRET_KEY c) expiresIn (clock c))\<rparr>))
       (reply 500 ''Server error during login'')"

text \<open>\<^verbatim>\<open>DELETE /api/blogs/:id\<close>, behind \<^verbatim>\<open>authenticate\<close>.\<close>

definition delete_blog :: "ctx \<Rightarrow> request \<Rightarrow> prog" where
  "delete_blog c req =
     Blog_findOneAndDelete (params_id req) (userId req)
       (\<lambda>found. case found of
          None \<Rightarrow> reply 404 ''Blog not found''
        | Some b \<Rightarrow> Respond \<lparr>status = 200, json = Msg ''Blog deleted''\<rparr>)
       (reply 500 ''Server error'')"

text \<open>\<^verbatim>\<open>POST /api/events/:id/register\<close>, the handler registered first (line 346).\<close>

definition register_first :: "ctx \<Rightarrow> request \<Rightarrow> prog" where
  "register_first c req =
     Event_findById (params_id req)
       (\<lambda>found. case found of
          None \<Rightarrow> reply 404 ''Event not found''
        | Some ev \<Rightarrow>
            if le_zero (availableSeats ev) then reply 400 ''No available seats''
            else if \<not> ObjectId_isValid (body req ''userId'') then reply 400 ''Invalid userId''
            else
              (let pushed = ObjectId (body req ''userId'');
                   ev1 = ev\<lparr>registrations := registrations ev @ [pushed]\<rparr>;
                   ev2 = ev1\<lparr>availableSeats := minus_one (availableSeats ev1)\<rparr>
               in Event_save (params_id req) (availableSeats ev2) [pushed]
                    (Respond \<lparr>status = 200, json = MsgEvent ''Registration successful'' ev2\<rparr>)
                    (reply 500 ''Error registering for event'')))
       (reply 500 ''Error registering for event'')"

text \<open>
  \<^verbatim>\<open>POST /api/events/:id/register\<close>, the handler registered second (line 453): it
  pushes \<^verbatim>\<open>req.body.userId\<close> with no check of its own. The array is declared of
  ObjectIds, so the push casts the value: \<^verbatim>\<open>undefined\<close> is pushed as it is, a well-formed
  string becomes the ObjectId, and any other string makes the push throw into the
  handler's \<^verbatim>\<open>catch\<close>.
\<close>

definition cast_ObjectId :: "string option \<Rightarrow> string option option" where
  \<comment> \<open>\<open>None\<close>: the cast throws\<close>
  "cast_ObjectId v =
     (case v of
        None \<Rightarrow> Some None
      | Some u \<Rightarrow> if ObjectId_isValid (Some u) then Some (ObjectId (Some u)) else None)"

definition register_second :: "ctx \<Rightarrow> request \<Rightarrow> prog" where
  "register_second c req =
     Event_findById (params_id req)
       (\<lambda>found. case found of
          None \<Rightarrow> reply 404 ''Event not found''
        | Some ev \<Rightarrow>
            if le_zero (availableSeats ev) then reply 400 ''No available seats''
            else
              (let ev1 = ev\<lparr>availableSeats := minus_one (availableSeats ev)\<rparr>
               in case cast_ObjectId (body req ''userId'') of
                    None \<Rightarrow> reply 500 ''Error registering for event''
                  | Some pushed \<Rightarrow>
                      (let ev2 = ev1\<lparr>registrations := registrations ev1 @ [pushed]\<rparr>
                       in Event_save (params_id req) (availableSeats ev2) [pushed]
                            (Respond \<lparr>status = 200,
                               json = MsgEvent ''Registration successful'' ev2\<rparr>)
                            (reply 500 ''Error registering for event''))))
       (reply 500 ''Error registering for event'')"

subsection \<open>Routing\<close>

text \<open>
  The routes in the order of their registration. A path is the list of its segments;
  \<^verbatim>\<open>:id\<close> matches one non-empty segment. Express offers a request to the handlers of
  every matching route in that order; a handler that does not call \<^verbatim>\<open>next()\<close> ends
  the request. The global middleware (body parser, CORS, metrics) passes every request
  on and is left out.
\<close>

datatype seg = Lit string | Param_id

datatype pattern = Segs "seg list" | Wildcard

datatype handler_id =
    H_cors | H_root | H_signup | H_login | H_get_blogs | H_get_jobs | H_post_jobs
  | H_authenticate | H_post_blogs | H_delete_blog | H_post_appointments
  | H_get_appointments | H_register_first | H_health | H_metrics | H_post_events
  | H_get_events | H_register_second | H_error

definition routes :: "(http_method \<times> pattern \<times> handler_id list) list" where
  "routes =
    [(OPTIONS, Wildcard, [H_cors]),
     (GET, Segs [], [H_root]),
     (POST, Segs [Lit ''api'', Lit ''signup''], [H_signup]),
     (POST, Segs [Lit ''api'', Lit ''login''], [H_login]),
     (GET, Segs [Lit ''api'', Lit ''blogs''], [H_get_blogs]),
     (GET, Segs [Lit ''api'', Lit ''jobs''], [H_get_jobs]),
     (POST, Segs [Lit ''api'', Lit ''jobs''], [H_post_jobs]),
     (POST, Segs [Lit ''api'', Lit ''blogs''], [H_authenticate, H_post_blogs]),
     (DELETE, Segs [Lit ''api'', Lit ''blogs'', Param_id], [H_authenticate, H_delete_blog]),
     (POST, Segs [Lit ''api'', Lit ''appointments''], [H_post_appointments]),
     (GET, Segs [Lit ''api'', Lit ''appointments''], [H_get_appointments]),
     (POST, Segs [Lit ''api'', Lit ''events'', Param_id, Lit ''register''], [H_register_first]),
     (GET, Segs [Lit ''health''], [H_health]),
     (GET, Segs [Lit ''metrics''], [H_metrics]),
     (POST, Segs [Lit ''api'', Lit ''events''], [H_post_events]),
     (GET, Segs [Lit ''api'', Lit ''events''], [H_get_events]),
     (POST, Segs [Lit ''api'', Lit ''events'', Param_id, Lit ''register''], [H_register_second]),
     (GET, Segs [Lit ''error''], [H_error])]"

text \<open>Matching returns the value of \<^verbatim>\<open>:id\<close> (empty when the pattern has none).\<close>

fun match_segs :: "seg list \<Rightarrow> string list \<Rightarrow> string option" where
  "match_segs [] [] = Some []"
| "match_segs (Lit l # ps) (x # xs) = (if l = x then match_segs ps xs else None)"
| "match_segs (Param_id # ps) (x # xs) =
     (if x = [] then None else map_option (\<lambda>_. x) (match_segs ps xs))"
| "match_segs _ _ = None"

fun match_pattern :: "pattern \<Rightarrow> string list \<Rightarrow> string option" where
  "match_pattern Wildcard xs = Some []"
| "match_pattern (Segs ps) xs = match_segs ps xs"

definition stack_of :: "http_method \<Rightarrow> string list \<Rightarrow> (string \<times> handler_id) list" where
  "stack_of m p =
     concat (map (\<lambda>(m', pat, hs).
        if m' = m then (case match_pattern pat p of None \<Rightarrow> [] | Some i \<Rightarrow> map (Pair i) hs)
        else []) routes)"

text \<open>
  The handlers that this model gives a meaning to; \<open>serve\<close> is \<open>None\<close> for a request
  whose stack holds any other handler.
\<close>

fun handler_impl :: "handler_id \<Rightarrow> (ctx \<Rightarrow> request \<Rightarrow> prog) option" where
  "handler_impl H_authenticate = Some authenticate"
| "handler_impl H_login = Some login"
| "handler_impl H_delete_blog = Some delete_blog"
| "handler_impl H_register_first = Some register_first"
| "handler_impl H_register_second = Some register_second"
| "handler_impl _ = None"

primrec serve_stack :: "(string \<times> (ctx \<Rightarrow> request \<Rightarrow> prog)) list \<Rightarrow> ctx \<Rightarrow> request \<Rightarrow> prog" where
  "serve_stack [] c req = Respond not_routed"
| "serve_stack (h # hs) c req = chain (snd h c (req\<lparr>params_id := fst h\<rparr>)) (serve_stack hs c)"

definition serve :: "ctx \<Rightarrow> request \<Rightarrow> prog option" where
  "serve c req =
     map_option (\<lambda>hs. serve_stack hs c req)
       (those (map (\<lambda>(i, h). map_option (Pair i) (handler_impl h))
          (stack_of (req_method req) (req_path req))))"

text \<open>Programs run one after the other, each from its first store call to its response.\<close>

fun run_all :: "prog list \<Rightarrow> store \<Rightarrow> store \<times> response list" where
  "run_all [] s = (s, [])"
| "run_all (p # ps) s =
     (case run p s of (s', r) \<Rightarrow> (case run_all ps s' of (s'', rs) \<Rightarrow> (s'', r # rs)))"

definition successes :: "response list \<Rightarrow> nat" where
  "successes rs = length (filter (\<lambda>r. status r = 200) rs)"

text \<open>The response of a request that has been answered.\<close>

definition response_of :: "prog \<Rightarrow> response option" where
  "response_of p = (case p of Respond r \<Rightarrow> Some r | _ \<Rightarrow> None)"

text \<open>The schema's \<^verbatim>\<open>min: 0\<close> on \<^verbatim>\<open>availableSeats\<close>, for every stored event.\<close>

definition seats_nonneg :: "store \<Rightarrow> bool" where
  "seats_nonneg s = (\<forall>i e. events s i = Some e \<longrightarrow> ge_zero (availableSeats e))"

subsection \<open>Sample data\<close>

text \<open>ObjectIds: of an event, of a blog and of two identities.\<close>

abbreviation event1 :: string where
  "event1 \<equiv> ''e1e1e1e1e1e1e1e1e1e1e1e1''"

abbreviation blog1 :: string where
  "blog1 \<equiv> ''b1b1b1b1b1b1b1b1b1b1b1b1''"

definition alice_id :: string where
  "alice_id = ''aaaaaaaaaaaaaaaaaaaaaaaa''"

definition bob_id :: string where
  "bob_id = ''bbbbbbbbbbbbbbbbbbbbbbbb''"

definition sample_event :: "int \<Rightarrow> string option list \<Rightarrow> event" where
  "sample_event seats regs =
     \<lparr>title = ''Yoga'', description = ''Morning class'', category = ''workshop'',
      date = ''2025-06-01'', time = ''09:00'', location = ''Hall'', imageUrl = None,
      availableSeats = Finite (of_int seats), registrations = regs, createdAt = 0\<rparr>"

definition sample_user :: user where
  "sample_user = \<lparr>user_id = alice_id, name = ''Alice'', email = ''alice@example.org'',
     number = ''100'', password = BcryptHash ''salt'' ''secret''\<rparr>"

definition sample_blog :: blog where
  "sample_blog = \<lparr>blog_title = ''Post'', content = ''Text'', image = None,
     blog_createdAt = 0, author = Some bob_id\<rparr>"

definition sample_store :: "event \<Rightarrow> store" where
  "sample_store e =
     \<lparr>users = [sample_user], blogs = [blog1 \<mapsto> sample_blog], events = [event1 \<mapsto> e]\<rparr>"

definition sample_ctx :: "nat \<Rightarrow> ctx" where
  "sample_ctx t = \<lparr>JWT_SECRET = None, clock = t\<rparr>"

definition sample_request ::
  "http_method \<Rightarrow> string list \<Rightarrow> token list option \<Rightarrow> (string \<rightharpoonup> string) \<Rightarrow> request" where
  "sample_request m p h b =
     \<lparr>req_method = m, req_path = p, headers_authorization = h, body = b,
      params_id = [], userId = None\<rparr>"

definition register_request :: "string \<Rightarrow> request" where
  "register_request u =
     (sample_request POST [''api'', ''events'', event1, ''register''] None [''userId'' \<mapsto> u])
       \<lparr>params_id := event1\<rparr>"

definition bearer :: "token \<Rightarrow> token list option" where
  \<comment> \<open>the header \<^verbatim>\<open>Authorization: Bearer <token>\<close>\<close>
  "bearer tok = Some [Raw ''Bearer'', tok]"

definition login_request :: "string \<Rightarrow> string \<Rightarrow> request" where
  "login_request e pw =
     sample_request POST [''api'', ''login''] None [''email'' \<mapsto> e, ''password'' \<mapsto> pw]"

definition login_request_without_password :: "string \<Rightarrow> request" where
  "login_request_without_password e =
     sample_request POST [''api'', ''login''] None [''email'' \<mapsto> e]"

definition delete_request :: "token \<Rightarrow> request" where
  "delete_request tok = sample_request DELETE [''api'', ''blogs'', blog1] (bearer tok) Map.empty"

definition sample_token :: "nat \<Rightarrow> token" where
  \<comment> \<open>the token that a login of the sample user at time \<open>t\<close> issues\<close>
  "sample_token t = jwt_sign alice_id (SECRET_KEY (sample_ctx t)) expiresIn (clock (sample_ctx t))"

section \<open>Properties\<close>

subsection \<open>Numbers\<close>

text \<open>
  Subtracting one from a whole number between 1 and \<open>2 ^ 53\<close> is exact; beyond that
  range, and on fractions, the result is rounded.
\<close>

lemma bitlen_1: "bitlen 1 = 1"
  by (simp add: bitlen_alt_def)

lemma round_half_even_int: "round_half_even (of_int j) = j"
  by (simp add: round_half_even_def)

lemma floor_log2_int_le:
  assumes "0 < m" and "m < 2 ^ 53"
  shows "floor_log2 (of_int m) \<le> 52"
proof -
  have "bitlen m \<le> 53"
    using assms by (simp add: bitlen_le_iff_power)
  then show ?thesis
    by (simp add: floor_log2_def quotient_of_int Let_def bitlen_1)
qed

lemma round_double_int:
  assumes "0 \<le> m" and "m < 2 ^ 53"
  shows "round_double (of_int m) = of_int m"
proof (cases "m = 0")
  case True
  then show ?thesis
    by (simp add: round_double_def)
next
  case False
  then have pos: "0 < m"
    using assms(1) by simp
  define k where "k = max (floor_log2 (of_int m) - 52) (- 1074)"
  have k: "k \<le> 0"
    using floor_log2_int_le [OF pos assms(2)] by (simp add: k_def)
  have pw: "(2::rat) powi k = 1 / 2 ^ nat (- k)"
    using k by (simp add: power_int_def field_simps)
  have "(of_int m :: rat) / 2 powi k = of_int (m * 2 ^ nat (- k))"
    by (simp add: pw)
  then have n: "round_half_even ((of_int m :: rat) / 2 powi k) = m * 2 ^ nat (- k)"
    by (simp only: round_half_even_int)
  have "round_double (of_int m) = of_int (m * 2 ^ nat (- k)) * 2 powi k"
    using pos n by (simp add: round_double_def Let_def k_def [symmetric])
  also have "\<dots> = of_int m"
    by (simp add: pw)
  finally show ?thesis .
qed

lemma minus_one_whole:
  assumes "1 \<le> n" and "n \<le> 2 ^ 53"
  shows "minus_one (Finite (of_int n)) = Finite (of_int (n - 1))"
proof -
  have r: "round_double (of_int n - 1) = of_int (n - 1)"
    using round_double_int [of "n - 1"] assms by simp
  have "(of_int (n - 1) :: rat) < 2 ^ 1024"
  proof -
    have "n - 1 < 2 ^ 53"
      using assms by simp
    also have "(2::int) ^ 53 < 2 ^ 1024"
      by simp
    finally have "n - 1 < (2::int) ^ 1024" .
    then have "(of_int (n - 1) :: rat) < of_int (2 ^ 1024)"
      by (simp only: of_int_less_iff)
    then show ?thesis
      by simp
  qed
  moreover have "- (2 ^ 1024) < (of_int (n - 1) :: rat)"
  proof -
    have "(0::rat) \<le> of_int (n - 1)"
      using assms by simp
    moreover have "- (2 ^ 1024) < (0::rat)"
      by simp
    ultimately show ?thesis
      by linarith
  qed
  ultimately show ?thesis
    using r by (simp add: minus_one_def of_rat_number_def Let_def)
qed

lemma minus_one_1: "minus_one (Finite 1) = Finite 0"
  using minus_one_whole [of 1] by simp

lemma minus_one_2: "minus_one (Finite 2) = Finite 1"
  using minus_one_whole [of 2] by simp

lemma minus_one_3: "minus_one (Finite 3) = Finite 2"
  using minus_one_whole [of 3] by simp

lemma minus_one_half: "minus_one (Finite (1 / 2)) = Finite (- (1 / 2))"
  by code_simp

lemma minus_one_1e16: "minus_one (Finite 10000000000000000) = Finite 10000000000000000"
  by code_simp

subsection \<open>What each handler computes when it runs alone\<close>

lemma run_reply: "run (reply n m) s = (s, \<lparr>status = n, json = Msg m\<rparr>)"
  by (simp add: reply_def)

lemma chain_reply: "chain (reply n m) f = reply n m"
  by (simp add: reply_def)

lemma run_register_first_eq:
  "run (register_first c req) s =
     (if \<not> ObjectId_isValid (Some (params_id req))
      then (s, \<lparr>status = 500, json = Msg ''Error registering for event''\<rparr>)
      else
        (case events s (params_id req) of
           None \<Rightarrow> (s, \<lparr>status = 404, json = Msg ''Event not found''\<rparr>)
         | Some ev \<Rightarrow>
             if le_zero (availableSeats ev)
             then (s, \<lparr>status = 400, json = Msg ''No available seats''\<rparr>)
             else if \<not> ObjectId_isValid (body req ''userId'')
             then (s, \<lparr>status = 400, json = Msg ''Invalid userId''\<rparr>)
             else if \<not> ge_zero (minus_one (availableSeats ev))
             then (s, \<lparr>status = 500, json = Msg ''Error registering for event''\<rparr>)
             else
               (s\<lparr>events := (events s)(params_id req \<mapsto>
                   ev\<lparr>availableSeats := minus_one (availableSeats ev),
                      registrations := registrations ev @ [ObjectId (body req ''userId'')]\<rparr>)\<rparr>,
                \<lparr>status = 200, json = MsgEvent ''Registration successful''
                   (ev\<lparr>availableSeats := minus_one (availableSeats ev),
                       registrations := registrations ev @ [ObjectId (body req ''userId'')]\<rparr>)\<rparr>)))"
  by (simp add: register_first_def findById_def run_reply save_event_def Let_def
      split: option.split)


lemma run_delete_blog_eq:
  "run (delete_blog c req) s =
     (case blogs s (params_id req) of
        None \<Rightarrow> (s, \<lparr>status = 404, json = Msg ''Blog not found''\<rparr>)
      | Some b \<Rightarrow>
          if author b = userId req
          then (s\<lparr>blogs := (blogs s)(params_id req := None)\<rparr>,
                \<lparr>status = 200, json = Msg ''Blog deleted''\<rparr>)
          else (s, \<lparr>status = 404, json = Msg ''Blog not found''\<rparr>))"
  by (simp add: delete_blog_def findOneAndDelete_def run_reply split: option.split)

lemma run_login_eq:
  "run (login c req) s =
     (case findOne_email s (body req ''email'') of
        None \<Rightarrow> (s, \<lparr>status = 401, json = Msg ''Invalid email or password''\<rparr>)
      | Some u \<Rightarrow>
          (case body req ''password'' of
             None \<Rightarrow> (s, \<lparr>status = 500, json = Msg ''Server error during login''\<rparr>)
           | Some pw \<Rightarrow>
               if \<not> bcrypt_compare pw (password u)
               then (s, \<lparr>status = 401, json = Msg ''Invalid email or password''\<rparr>)
               else (s, \<lparr>status = 200, json = MsgToken ''Login successful''
                 (jwt_sign (user_id u) (SECRET_KEY c) expiresIn (clock c))\<rparr>)))"
  by (simp add: login_def run_reply split: option.split)

lemma authenticate_rejects:
  assumes "headers_authorization req = Some (b # tok # rest)"
    and "tok \<noteq> Raw []"
    and "jwt_verify tok (SECRET_KEY c) (clock c) = Inl e"
  shows "authenticate c req = reply 401 ''Invalid token''"
  using assms by (simp add: authenticate_def)

lemma authenticate_accepts:
  assumes "headers_authorization req = Some (b # tok # rest)"
    and "jwt_verify tok (SECRET_KEY c) (clock c) = Inr p"
  shows "authenticate c req = Next (req\<lparr>userId := Some (jwt_userId p)\<rparr>)"
proof -
  have "tok \<noteq> Raw []"
    using assms(2) by auto
  then show ?thesis
    using assms by (simp add: authenticate_def)
qed

subsection \<open>Routing\<close>


lemma chain_delete_blog: "chain (delete_blog c req) f = delete_blog c req"
  by (auto simp: delete_blog_def reply_def fun_eq_iff split: option.splits)


lemma stack_of_delete_blog:
  "i \<noteq> [] \<Longrightarrow> stack_of DELETE [''api'', ''blogs'', i] =
     [(i, H_authenticate), (i, H_delete_blog)]"
  by (simp add: stack_of_def routes_def)

lemma stack_of_post_blogs:
  "stack_of POST [''api'', ''blogs''] = [([], H_authenticate), ([], H_post_blogs)]"
  by (simp add: stack_of_def routes_def)


lemma serve_delete_blog:
  assumes "i \<noteq> []" and "req_method req = DELETE" and "req_path req = [''api'', ''blogs'', i]"
  shows "serve c req = Some (chain (authenticate c (req\<lparr>params_id := i\<rparr>))
      (\<lambda>q. delete_blog c (q\<lparr>params_id := i\<rparr>)))"
proof -
  have "serve_stack [(i, delete_blog)] c = (\<lambda>q. delete_blog c (q\<lparr>params_id := i\<rparr>))"
    by (rule ext) (simp add: chain_delete_blog)
  then show ?thesis
    using assms by (simp add: serve_def stack_of_delete_blog)
qed

subsection \<open>Facts about the sample data\<close>

lemma valid_alice: "ObjectId_isValid (Some alice_id)"
  by (simp add: ObjectId_isValid_def alice_id_def is_hex_def)

lemma valid_bob: "ObjectId_isValid (Some bob_id)"
  by (simp add: ObjectId_isValid_def bob_id_def is_hex_def)

lemma ObjectId_alice: "ObjectId (Some alice_id) = Some alice_id"
  by (simp add: ObjectId_def alice_id_def hex_lower_def)

lemma ObjectId_bob: "ObjectId (Some bob_id) = Some bob_id"
  by (simp add: ObjectId_def bob_id_def hex_lower_def)

lemma valid_event1: "ObjectId_isValid (Some event1)"
  by (simp add: ObjectId_isValid_def is_hex_def)

lemma invalid_nope: "\<not> ObjectId_isValid (Some ''nope'')"
  by (simp add: ObjectId_isValid_def)

lemma body_register_request: "body (register_request u) ''userId'' = Some u"
  by (simp add: register_request_def sample_request_def)

lemma params_register_request: "params_id (register_request u) = event1"
  by (simp add: register_request_def)

lemma events_sample_store: "events (sample_store e) event1 = Some e"
  by (simp add: sample_store_def)

lemma findOne_alice:
  "findOne_email (sample_store e) (body (login_request ''alice@example.org'' pw) ''email'')
     = Some sample_user"
  by (simp add: findOne_email_def sample_store_def login_request_def sample_request_def
      sample_user_def)

lemma findOne_carol:
  "findOne_email (sample_store e) (body (login_request ''carol@example.org'' pw) ''email'') = None"
  by (simp add: findOne_email_def sample_store_def login_request_def sample_request_def
      sample_user_def)

subsection \<open>Capacity\<close>

text \<open>
  Whatever the requests in flight and whatever the order of their store calls, no stored
  event ever has an \<^verbatim>\<open>availableSeats\<close> that fails \<^verbatim>\<open>min: 0\<close>: \<^verbatim>\<open>save\<close> validates
  the value.
\<close>

lemma save_event_seats_nonneg:
  "seats_nonneg s \<Longrightarrow> save_event s i n ps = Some s' \<Longrightarrow> seats_nonneg s'"
  by (auto simp: seats_nonneg_def save_event_def split: if_splits option.splits)

lemma findOneAndDelete_events: "events (snd (findOneAndDelete s i a)) = events s"
  by (simp add: findOneAndDelete_def split: option.split)

lemma step_seats_nonneg: "seats_nonneg s \<Longrightarrow> seats_nonneg (snd (step p s))"
proof (cases p)
  case (Blog_findOneAndDelete i a k err)
  assume "seats_nonneg s"
  then have "seats_nonneg (snd (findOneAndDelete s i a))"
    by (simp add: seats_nonneg_def findOneAndDelete_events)
  then show ?thesis
    using Blog_findOneAndDelete by (simp add: split_beta)
next
  case (Event_findById i k err)
  assume "seats_nonneg s"
  then show ?thesis
    using Event_findById by (simp split: option.split)
next
  case (Event_save i n ps ok err)
  assume "seats_nonneg s"
  then show ?thesis
    using Event_save by (auto split: option.split dest: save_event_seats_nonneg)
qed simp_all

lemma interleave_seats_nonneg:
  "seats_nonneg s \<Longrightarrow> seats_nonneg (snd (interleave sched ps s))"
proof (induction sched arbitrary: ps s)
  case Nil
  then show ?case by simp
next
  case (Cons i sched)
  show ?case
  proof (cases "i < length ps")
    case True
    have "seats_nonneg (snd (step (ps ! i) s))"
      using Cons.prems by (rule step_seats_nonneg)
    then have "seats_nonneg
        (snd (interleave sched (ps[i := fst (step (ps ! i) s)]) (snd (step (ps ! i) s))))"
      by (rule Cons.IH)
    then show ?thesis
      using True by (simp add: split_beta)
  next
    case False
    then show ?thesis
      using Cons by simp
  qed
qed

text \<open>
  Calls that run one after the other respect the capacity: on an event with a whole
  number \<open>N\<close> of seats, from 0 to \<open>2 ^ 53\<close>, the successful calls and the seats that
  remain add up to \<open>N\<close>, and every success adds one registration.
\<close>

lemma run_register_first_seats:
  assumes "events s (params_id req) = Some e"
    and "availableSeats e = Finite (of_int n)" and "0 \<le> n" and "n \<le> 2 ^ 53"
  shows "\<exists>e' n'. events (fst (run (register_first c req) s)) (params_id req) = Some e' \<and>
     availableSeats e' = Finite (of_int n') \<and> 0 \<le> n' \<and> n' \<le> 2 ^ 53 \<and>
     n' + int (successes [snd (run (register_first c req) s)]) = n \<and>
     length (registrations e') =
       length (registrations e) + successes [snd (run (register_first c req) s)]"
proof (cases "n = 0 \<or> \<not> ObjectId_isValid (body req ''userId'')
    \<or> \<not> ObjectId_isValid (Some (params_id req))")
  case True
  then have "fst (run (register_first c req) s) = s"
    and "status (snd (run (register_first c req) s)) \<noteq> 200"
    using assms(1,2) by (auto simp: run_register_first_eq)
  then show ?thesis
    using assms by (intro exI [of _ e] exI [of _ n]) (simp add: successes_def)
next
  case False
  then have n: "1 \<le> n" and v: "ObjectId_isValid (body req ''userId'')"
    and i: "ObjectId_isValid (Some (params_id req))"
    using assms(3) by auto
  have m: "minus_one (availableSeats e) = Finite (of_int (n - 1))"
    using minus_one_whole [OF n assms(4)] assms(2) by simp
  let ?e' = "e\<lparr>availableSeats := Finite (of_int (n - 1)),
      registrations := registrations e @ [ObjectId (body req ''userId'')]\<rparr>"
  have "run (register_first c req) s =
      (s\<lparr>events := (events s)(params_id req \<mapsto> ?e')\<rparr>,
       \<lparr>status = 200, json = MsgEvent ''Registration successful'' ?e'\<rparr>)"
    using assms(1,2) n v i m by (simp add: run_register_first_eq)
  then show ?thesis
    using n assms(4) by (intro exI [of _ ?e'] exI [of _ "n - 1"]) (simp add: successes_def)
qed

lemma run_all_register_first_capacity:
  assumes "events s i = Some e"
    and "availableSeats e = Finite (of_int n)" and "0 \<le> n" and "n \<le> 2 ^ 53"
    and "\<forall>req \<in> set reqs. params_id req = i"
  shows "\<exists>e' n'. events (fst (run_all (map (register_first c) reqs) s)) i = Some e' \<and>
     availableSeats e' = Finite (of_int n') \<and> 0 \<le> n' \<and>
     n' + int (successes (snd (run_all (map (register_first c) reqs) s))) = n \<and>
     length (registrations e') =
       length (registrations e) + successes (snd (run_all (map (register_first c) reqs) s))"
  using assms
proof (induction reqs arbitrary: s e n)
  case Nil
  then show ?case
    by (simp add: successes_def)
next
  case (Cons req reqs)
  let ?s1 = "fst (run (register_first c req) s)"
  let ?r1 = "snd (run (register_first c req) s)"
  have p: "params_id req = i"
    using Cons.prems(5) by simp
  from run_register_first_seats [of s req e n c] Cons.prems(1-4) p
  obtain e1 n1 where e1: "events ?s1 i = Some e1" "availableSeats e1 = Finite (of_int n1)"
    "0 \<le> n1" "n1 \<le> 2 ^ 53" "n1 + int (successes [?r1]) = n"
    "length (registrations e1) = length (registrations e) + successes [?r1]"
    by auto
  have rest: "\<forall>req \<in> set reqs. params_id req = i"
    using Cons.prems(5) by simp
  from Cons.IH [OF e1(1-4) rest]
  obtain e' n' where e': "events (fst (run_all (map (register_first c) reqs) ?s1)) i = Some e'"
    "availableSeats e' = Finite (of_int n')" "0 \<le> n'"
    "n' + int (successes (snd (run_all (map (register_first c) reqs) ?s1))) = n1"
    "length (registrations e') =
       length (registrations e1) + successes (snd (run_all (map (register_first c) reqs) ?s1))"
    by auto
  have split: "successes (?r1 # snd (run_all (map (register_first c) reqs) ?s1)) =
      successes [?r1] + successes (snd (run_all (map (register_first c) reqs) ?s1))"
    by (simp add: successes_def)
  have unfold: "run_all (map (register_first c) (req # reqs)) s =
      (fst (run_all (map (register_first c) reqs) ?s1),
       ?r1 # snd (run_all (map (register_first c) reqs) ?s1))"
    by (simp add: split_beta)
  show ?case
    unfolding unfold fst_conv snd_conv
    using e' e1(5,6) by (intro exI [of _ e'] exI [of _ n']) (simp only: split, simp)
qed

text \<open>
  When other requests run between the read and the write of a call, the write assigns
  the \<^verbatim>\<open>availableSeats\<close> of the document that was read, less one, and pushes onto
  the registrations that are stored at the time of the write.
\<close>

lemma register_first_stale_save:
  assumes "ObjectId_isValid (Some (params_id req))"
    and "events s1 (params_id req) = Some e1" and "\<not> le_zero (availableSeats e1)"
    and "ge_zero (minus_one (availableSeats e1))"
    and "ObjectId_isValid (body req ''userId'')"
    and "events s2 (params_id req) = Some e2"
  shows "step (fst (step (register_first c req) s1)) s2 =
     (Respond \<lparr>status = 200, json = MsgEvent ''Registration successful''
        (e1\<lparr>availableSeats := minus_one (availableSeats e1),
            registrations := registrations e1 @ [ObjectId (body req ''userId'')]\<rparr>)\<rparr>,
      s2\<lparr>events := (events s2)(params_id req \<mapsto>
        e2\<lparr>availableSeats := minus_one (availableSeats e1),
           registrations := registrations e2 @ [ObjectId (body req ''userId'')]\<rparr>)\<rparr>)"
  using assms by (simp add: register_first_def findById_def save_event_def Let_def)

text \<open>
  A count that is not whole, or too large for the subtraction to be exact, is stored by
  the schema all the same. With half a seat the call passes the capacity check and is
  answered 500 when \<^verbatim>\<open>save\<close> rejects the negative value; with \<open>10 ^ 16\<close> seats the
  call succeeds and the count stays as it was.
\<close>

lemma register_first_half_seat:
  "run (register_first c (register_request alice_id))
     (sample_store ((sample_event 0 [])\<lparr>availableSeats := Finite (1 / 2)\<rparr>)) =
   (sample_store ((sample_event 0 [])\<lparr>availableSeats := Finite (1 / 2)\<rparr>),
    \<lparr>status = 500, json = Msg ''Error registering for event''\<rparr>)"
  by (simp add: run_register_first_eq params_register_request body_register_request valid_event1
      events_sample_store valid_alice minus_one_half)

lemma register_first_lost_decrement:
  "availableSeats
     (the (events (fst (run (register_first c (register_request alice_id))
        (sample_store
           ((sample_event 0 [])\<lparr>availableSeats := Finite 10000000000000000\<rparr>)))) event1))
     = Finite 10000000000000000 \<and>
   status (snd (run (register_first c (register_request alice_id))
        (sample_store
           ((sample_event 0 [])\<lparr>availableSeats := Finite 10000000000000000\<rparr>)))) = 200"
  by (simp add: run_register_first_eq params_register_request body_register_request valid_event1
      events_sample_store valid_alice minus_one_1e16 sample_store_def)

text \<open>
  Claim C1 (the number of successful registrations never exceeds the capacity, for every
  sequence of possibly concurrent register calls). The handler reads the event with one
  store call and writes it with another. On an event with one seat, two requests for
  different identities whose reads both precede the writes are both answered with
  ``Registration successful'': the event ends with two registrations and
  \<^verbatim>\<open>availableSeats\<close> 0.
\<close>

theorem register_interleaved_oversells:
  "availableSeats (sample_event 1 []) = Finite 1 \<and>
   map (map_option status \<circ> response_of)
     (fst (interleave [0, 1, 0, 1]
        [register_first (sample_ctx 0) (register_request alice_id),
         register_first (sample_ctx 0) (register_request bob_id)]
        (sample_store (sample_event 1 [])))) = [Some 200, Some 200] \<and>
   map_option registrations
     (events (snd (interleave [0, 1, 0, 1]
        [register_first (sample_ctx 0) (register_request alice_id),
         register_first (sample_ctx 0) (register_request bob_id)]
        (sample_store (sample_event 1 [])))) event1) = Some [Some alice_id, Some bob_id] \<and>
   map_option availableSeats
     (events (snd (interleave [0, 1, 0, 1]
        [register_first (sample_ctx 0) (register_request alice_id),
         register_first (sample_ctx 0) (register_request bob_id)]
        (sample_store (sample_event 1 [])))) event1) = Some (Finite 0)"
  by (simp add: register_first_def register_request_def sample_request_def sample_store_def
      sample_event_def valid_alice valid_bob ObjectId_alice ObjectId_bob save_event_def
      findById_def valid_event1 minus_one_1 response_of_def reply_def Let_def)

subsection \<open>The condition of a registration\<close>

text \<open>
  Claim C2, as the code has it: the registration is conditioned on the capacity check
  (and on the form of \<^verbatim>\<open>userId\<close>) alone; whether the identity is already among the
  registrations plays no part. On an event that exists, a call run alone with a
  well-formed \<^verbatim>\<open>userId\<close> is refused with ``No available seats'' exactly when
  \<^verbatim>\<open>availableSeats <= 0\<close>. Otherwise it computes \<^verbatim>\<open>availableSeats - 1\<close>: when that
  is negative (a fraction of a seat was left) \<^verbatim>\<open>save\<close> rejects it and the call is
  answered 500 with nothing written; when it is not, the value is stored and the identity
  appended. For a whole number of seats from 1 to \<open>2 ^ 53\<close> the call succeeds and the
  value stored is exactly one less.
\<close>

theorem register_condition_is_capacity:
  assumes "ObjectId_isValid (Some (params_id req))"
    and "events s (params_id req) = Some e"
    and "ObjectId_isValid (body req ''userId'')"
  shows "run (register_first c req) s =
     (if le_zero (availableSeats e)
      then (s, \<lparr>status = 400, json = Msg ''No available seats''\<rparr>)
      else if \<not> ge_zero (minus_one (availableSeats e))
      then (s, \<lparr>status = 500, json = Msg ''Error registering for event''\<rparr>)
      else (s\<lparr>events := (events s)(params_id req \<mapsto>
                e\<lparr>availableSeats := minus_one (availableSeats e),
                  registrations := registrations e @ [ObjectId (body req ''userId'')]\<rparr>)\<rparr>,
            \<lparr>status = 200, json = MsgEvent ''Registration successful''
                (e\<lparr>availableSeats := minus_one (availableSeats e),
                   registrations := registrations e @ [ObjectId (body req ''userId'')]\<rparr>)\<rparr>)) \<and>
     (\<forall>n. availableSeats e = Finite (of_int n) \<and> 1 \<le> n \<and> n \<le> 2 ^ 53 \<longrightarrow>
        \<not> le_zero (availableSeats e) \<and> ge_zero (minus_one (availableSeats e)) \<and>
        minus_one (availableSeats e) = Finite (of_int (n - 1)))"
proof -
  have "run (register_first c req) s =
     (if le_zero (availableSeats e)
      then (s, \<lparr>status = 400, json = Msg ''No available seats''\<rparr>)
      else if \<not> ge_zero (minus_one (availableSeats e))
      then (s, \<lparr>status = 500, json = Msg ''Error registering for event''\<rparr>)
      else (s\<lparr>events := (events s)(params_id req \<mapsto>
                e\<lparr>availableSeats := minus_one (availableSeats e),
                  registrations := registrations e @ [ObjectId (body req ''userId'')]\<rparr>)\<rparr>,
            \<lparr>status = 200, json = MsgEvent ''Registration successful''
                (e\<lparr>availableSeats := minus_one (availableSeats e),
                   registrations := registrations e @ [ObjectId (body req ''userId'')]\<rparr>)\<rparr>))"
    using assms by (simp add: run_register_first_eq)
  moreover have "\<not> le_zero (availableSeats e) \<and> ge_zero (minus_one (availableSeats e)) \<and>
        minus_one (availableSeats e) = Finite (of_int (n - 1))"
    if "availableSeats e = Finite (of_int n) \<and> 1 \<le> n \<and> n \<le> 2 ^ 53" for n
    using that minus_one_whole [of n] by simp
  ultimately show ?thesis
    by blast
qed

text \<open>Two seats are left and the identity is registered already.\<close>

theorem register_condition_is_capacity_witness:
  "run (register_first (sample_ctx 0) (register_request alice_id))
     (sample_store (sample_event 2 [Some alice_id])) =
   ((sample_store (sample_event 2 [Some alice_id]))
      \<lparr>events := [event1 \<mapsto> sample_event 1 [Some alice_id, Some alice_id]]\<rparr>,
    \<lparr>status = 200,
     json = MsgEvent ''Registration successful'' (sample_event 1 [Some alice_id, Some alice_id])\<rparr>)"
proof -
  have h1: "ObjectId_isValid (Some (params_id (register_request alice_id)))"
    by (simp add: params_register_request valid_event1)
  have h2: "events (sample_store (sample_event 2 [Some alice_id]))
      (params_id (register_request alice_id)) = Some (sample_event 2 [Some alice_id])"
    by (simp add: params_register_request events_sample_store)
  have h3: "ObjectId_isValid (body (register_request alice_id) ''userId'')"
    by (simp add: body_register_request valid_alice)
  note t = register_condition_is_capacity [OF h1 h2 h3, of "sample_ctx 0", THEN conjunct1]
  show ?thesis
    unfolding t
    by (simp add: params_register_request body_register_request sample_store_def sample_event_def
        ObjectId_alice minus_one_2)
qed

text \<open>
  The claim as stated fails: an identity that is already registered registers again,
  on an event with one seat left.
\<close>

theorem register_duplicate_counterexample:
  "run (register_first (sample_ctx 0) (register_request alice_id))
     (sample_store (sample_event 1 [Some alice_id])) =
   ((sample_store (sample_event 1 [Some alice_id]))
      \<lparr>events := [event1 \<mapsto> sample_event 0 [Some alice_id, Some alice_id]]\<rparr>,
    \<lparr>status = 200,
     json = MsgEvent ''Registration successful'' (sample_event 0 [Some alice_id, Some alice_id])\<rparr>)"
  by (simp add: run_register_first_eq params_register_request body_register_request valid_event1
      sample_store_def sample_event_def valid_alice ObjectId_alice minus_one_1)

subsection \<open>Registering twice\<close>

text \<open>
  Claim C3, as the code has it: the handler does not look for the identity among the
  registrations. When an identity that is already registered calls register again, alone,
  on an event with a seat left (\<^verbatim>\<open>availableSeats\<close> is positive and
  \<^verbatim>\<open>availableSeats - 1\<close> is not negative), the call succeeds, \<^verbatim>\<open>availableSeats\<close>
  becomes \<^verbatim>\<open>availableSeats - 1\<close>, exactly one less for a whole number of seats up to
  \<open>2 ^ 53\<close>, and the identity is appended once more, so that it occurs at least twice.
\<close>

theorem register_again_succeeds:
  assumes "ObjectId_isValid (Some (params_id req))"
    and "events s (params_id req) = Some e"
    and "\<not> le_zero (availableSeats e)"
    and "ge_zero (minus_one (availableSeats e))"
    and "ObjectId_isValid (body req ''userId'')"
    and "ObjectId (body req ''userId'') \<in> set (registrations e)"
  shows "\<exists>e'. run (register_first c req) s =
        (s\<lparr>events := (events s)(params_id req \<mapsto> e')\<rparr>,
         \<lparr>status = 200, json = MsgEvent ''Registration successful'' e'\<rparr>) \<and>
      availableSeats e' = minus_one (availableSeats e) \<and>
      (\<forall>n. availableSeats e = Finite (of_int n) \<and> 1 \<le> n \<and> n \<le> 2 ^ 53 \<longrightarrow>
         availableSeats e' = Finite (of_int (n - 1))) \<and>
      registrations e' = registrations e @ [ObjectId (body req ''userId'')] \<and>
      2 \<le> count_list (registrations e') (ObjectId (body req ''userId''))"
proof -
  let ?u = "ObjectId (body req ''userId'')"
  let ?e' = "e\<lparr>availableSeats := minus_one (availableSeats e),
      registrations := registrations e @ [?u]\<rparr>"
  have "count_list (registrations e) ?u \<noteq> 0"
    using assms(6) by (simp add: count_list_0_iff)
  then have "0 < count_list (registrations e) ?u"
    by simp
  then have "2 \<le> count_list (registrations ?e') ?u"
    by simp
  moreover have "run (register_first c req) s =
        (s\<lparr>events := (events s)(params_id req \<mapsto> ?e')\<rparr>,
         \<lparr>status = 200, json = MsgEvent ''Registration successful'' ?e'\<rparr>)"
    using assms(1-5) by (simp add: run_register_first_eq)
  moreover have "availableSeats ?e' = Finite (of_int (n - 1))"
    if "availableSeats e = Finite (of_int n) \<and> 1 \<le> n \<and> n \<le> 2 ^ 53" for n
    using that minus_one_whole [of n] by simp
  ultimately show ?thesis
    by (intro exI [of _ ?e']) simp
qed

text \<open>Two seats are left and the identity is registered already.\<close>

theorem register_again_succeeds_witness:
  "\<exists>e'. run (register_first (sample_ctx 5) (register_request alice_id))
        (sample_store (sample_event 2 [Some alice_id])) =
        ((sample_store (sample_event 2 [Some alice_id]))
           \<lparr>events := (events (sample_store (sample_event 2 [Some alice_id])))
              (params_id (register_request alice_id) \<mapsto> e')\<rparr>,
         \<lparr>status = 200, json = MsgEvent ''Registration successful'' e'\<rparr>) \<and>
      availableSeats e' = Finite 1 \<and>
      registrations e' = [Some alice_id, Some alice_id]"
proof -
  have h1: "ObjectId_isValid (Some (params_id (register_request alice_id)))"
    by (simp add: params_register_request valid_event1)
  have h2: "events (sample_store (sample_event 2 [Some alice_id]))
      (params_id (register_request alice_id)) = Some (sample_event 2 [Some alice_id])"
    by (simp add: params_register_request events_sample_store)
  have h3: "\<not> le_zero (availableSeats (sample_event 2 [Some alice_id]))"
    by (simp add: sample_event_def)
  have h4: "ge_zero (minus_one (availableSeats (sample_event 2 [Some alice_id])))"
    by (simp add: sample_event_def minus_one_2)
  have h5: "ObjectId_isValid (body (register_request alice_id) ''userId'')"
    by (simp add: body_register_request valid_alice)
  have h6: "ObjectId (body (register_request alice_id) ''userId'')
      \<in> set (registrations (sample_event 2 [Some alice_id]))"
    by (simp add: body_register_request sample_event_def ObjectId_alice)
  from register_again_succeeds [OF h1 h2 h3 h4 h5 h6, of "sample_ctx 5"]
  obtain e' where e': "run (register_first (sample_ctx 5) (register_request alice_id))
        (sample_store (sample_event 2 [Some alice_id])) =
        ((sample_store (sample_event 2 [Some alice_id]))
           \<lparr>events := (events (sample_store (sample_event 2 [Some alice_id])))
              (params_id (register_request alice_id) \<mapsto> e')\<rparr>,
         \<lparr>status = 200, json = MsgEvent ''Registration successful'' e'\<rparr>)"
    "availableSeats e' = minus_one (availableSeats (sample_event 2 [Some alice_id]))"
    "registrations e' = registrations (sample_event 2 [Some alice_id])
       @ [ObjectId (body (register_request alice_id) ''userId'')]"
    by blast
  have "availableSeats e' = Finite 1"
    using e'(2) by (simp add: sample_event_def minus_one_2)
  moreover have "registrations e' = [Some alice_id, Some alice_id]"
    using e'(3) by (simp add: sample_event_def body_register_request ObjectId_alice)
  ultimately show ?thesis
    using e'(1) by blast
qed

text \<open>
  The claim as stated fails on the spec's own scenario: an event with capacity 3, the
  same identity registering twice in a row. The first call leaves two seats; the second
  is answered with ``Registration successful'' and leaves one.
\<close>

theorem register_twice_counterexample:
  "fst (run (register_first (sample_ctx 0) (register_request alice_id))
     (sample_store (sample_event 3 []))) = sample_store (sample_event 2 [Some alice_id]) \<and>
   run (register_first (sample_ctx 1) (register_request alice_id))
     (sample_store (sample_event 2 [Some alice_id])) =
   (sample_store (sample_event 1 [Some alice_id, Some alice_id]),
    \<lparr>status = 200,
     json = MsgEvent ''Registration successful'' (sample_event 1 [Some alice_id, Some alice_id])\<rparr>)"
  by (simp add: run_register_first_eq params_register_request body_register_request valid_event1
      sample_store_def sample_event_def valid_alice ObjectId_alice minus_one_3 minus_one_2)

subsection \<open>Token round trip\<close>

text \<open>
  Claim C4: the token that a successful login issues embeds the identity and an expiry
  exactly 3600 seconds after the time of issue; verified under the same secret, it yields
  the identity at every time strictly before that expiry, and the expiry error at the
  expiry and at every later time. \<^verbatim>\<open>authenticate\<close> then passes the request on with
  \<^verbatim>\<open>req.userId\<close> set to the identity, respectively answers 401.
\<close>

theorem token_round_trip:
  assumes "findOne_email s (body req ''email'') = Some u"
    and "body req ''password'' = Some pw"
    and "bcrypt_compare pw (password u)"
    and "JWT_SECRET c' = JWT_SECRET c"
    and "headers_authorization q = Some [b, tok]"
    and "tok = jwt_sign (user_id u) (SECRET_KEY c) expiresIn (clock c)"
  shows "run (login c req) s = (s, \<lparr>status = 200, json = MsgToken ''Login successful'' tok\<rparr>) \<and>
     tok = Jwt \<lparr>jwt_userId = user_id u, iat = clock c, exp = clock c + 3600\<rparr> (SECRET_KEY c) \<and>
     jwt_verify tok (SECRET_KEY c') (clock c') =
       (if clock c' < clock c + 3600
        then Inr \<lparr>jwt_userId = user_id u, iat = clock c, exp = clock c + 3600\<rparr>
        else Inl TokenExpiredError) \<and>
     authenticate c' q =
       (if clock c' < clock c + 3600 then Next (q\<lparr>userId := Some (user_id u)\<rparr>)
        else reply 401 ''Invalid token'')"
proof -
  have key: "SECRET_KEY c' = SECRET_KEY c"
    using assms(4) by (simp add: SECRET_KEY_def)
  have tok: "tok = Jwt \<lparr>jwt_userId = user_id u, iat = clock c, exp = clock c + 3600\<rparr> (SECRET_KEY c)"
    using assms(6) by (simp add: jwt_sign_def expiresIn_def)
  have ver: "jwt_verify tok (SECRET_KEY c') (clock c') =
       (if clock c' < clock c + 3600
        then Inr \<lparr>jwt_userId = user_id u, iat = clock c, exp = clock c + 3600\<rparr>
        else Inl TokenExpiredError)"
    by (simp add: tok key)
  have "run (login c req) s = (s, \<lparr>status = 200, json = MsgToken ''Login successful'' tok\<rparr>)"
    using assms(1-3,6) by (simp add: run_login_eq)
  moreover have "authenticate c' q =
       (if clock c' < clock c + 3600 then Next (q\<lparr>userId := Some (user_id u)\<rparr>)
        else reply 401 ''Invalid token'')"
  proof (cases "clock c' < clock c + 3600")
    case True
    then have "jwt_verify tok (SECRET_KEY c') (clock c')
        = Inr \<lparr>jwt_userId = user_id u, iat = clock c, exp = clock c + 3600\<rparr>"
      using ver by simp
    from authenticate_accepts [OF assms(5) this] True show ?thesis by simp
  next
    case False
    then have v: "jwt_verify tok (SECRET_KEY c') (clock c') = Inl TokenExpiredError"
      using ver by simp
    have "tok \<noteq> Raw []" using tok by simp
    from authenticate_rejects [OF assms(5) this v] False show ?thesis by simp
  qed
  ultimately show ?thesis using tok ver by simp
qed

text \<open>One second before the expiry of a token issued at time 100.\<close>

theorem token_round_trip_witness:
  "run (login (sample_ctx 100) (login_request ''alice@example.org'' ''secret''))
      (sample_store (sample_event 1 [])) =
     (sample_store (sample_event 1 []),
      \<lparr>status = 200, json = MsgToken ''Login successful'' (sample_token 100)\<rparr>) \<and>
   jwt_verify (sample_token 100) (SECRET_KEY (sample_ctx 3699)) (clock (sample_ctx 3699)) =
     Inr \<lparr>jwt_userId = alice_id, iat = 100, exp = 3700\<rparr> \<and>
   authenticate (sample_ctx 3699) (delete_request (sample_token 100)) =
     Next ((delete_request (sample_token 100))\<lparr>userId := Some alice_id\<rparr>)"
proof -
  have h2: "body (login_request ''alice@example.org'' ''secret'') ''password'' = Some ''secret''"
    by (simp add: login_request_def sample_request_def)
  have h3: "bcrypt_compare ''secret'' (password sample_user)"
    by (simp add: sample_user_def)
  have h4: "JWT_SECRET (sample_ctx 3699) = JWT_SECRET (sample_ctx 100)"
    by (simp add: sample_ctx_def)
  have h5: "headers_authorization (delete_request (sample_token 100))
      = Some [Raw ''Bearer'', sample_token 100]"
    by (simp add: delete_request_def sample_request_def bearer_def)
  have h6: "sample_token 100
      = jwt_sign (user_id sample_user) (SECRET_KEY (sample_ctx 100)) expiresIn (clock (sample_ctx 100))"
    by (simp add: sample_token_def sample_user_def)
  note t = token_round_trip [OF findOne_alice h2 h3 h4 h5 h6, of "sample_event 1 []"]
  have a: "run (login (sample_ctx 100) (login_request ''alice@example.org'' ''secret''))
      (sample_store (sample_event 1 [])) =
     (sample_store (sample_event 1 []),
      \<lparr>status = 200, json = MsgToken ''Login successful'' (sample_token 100)\<rparr>)"
    using t by (rule conjunct1)
  have b: "jwt_verify (sample_token 100) (SECRET_KEY (sample_ctx 3699)) (clock (sample_ctx 3699)) =
     Inr \<lparr>jwt_userId = alice_id, iat = 100, exp = 3700\<rparr>"
    using t [THEN conjunct2, THEN conjunct2, THEN conjunct1]
    by (simp add: sample_ctx_def sample_user_def)
  have c: "authenticate (sample_ctx 3699) (delete_request (sample_token 100)) =
     Next ((delete_request (sample_token 100))\<lparr>userId := Some alice_id\<rparr>)"
    using t [THEN conjunct2, THEN conjunct2, THEN conjunct2]
    by (simp add: sample_ctx_def sample_user_def)
  show ?thesis
    using a b c by (intro conjI)
qed

subsection \<open>Deleting a blog of another owner\<close>

text \<open>
  Claim C5: a \<^verbatim>\<open>DELETE /api/blogs/:id\<close> by an authenticated requester \<open>A\<close> on a
  blog whose author is not \<open>A\<close> is one store call, a conditional delete carrying both
  the id and the author; it is answered 404 ``Blog not found'' and leaves the store as it
  was, and the answer is the same when the blog does not exist.
\<close>

theorem delete_blog_of_other_owner:
  assumes "blogs s i = Some b" and "author b \<noteq> Some A" and "i \<noteq> []"
    and "req_method req = DELETE" and "req_path req = [''api'', ''blogs'', i]"
    and "headers_authorization req = Some [bearer_word, tok]"
    and "jwt_verify tok (SECRET_KEY c) (clock c) = Inr p" and "jwt_userId p = A"
  shows "serve c req = Some
      (Blog_findOneAndDelete i (Some A)
         (\<lambda>found. case found of
            None \<Rightarrow> reply 404 ''Blog not found''
          | Some b \<Rightarrow> Respond \<lparr>status = 200, json = Msg ''Blog deleted''\<rparr>)
         (reply 500 ''Server error'')) \<and>
     run (the (serve c req)) s = (s, \<lparr>status = 404, json = Msg ''Blog not found''\<rparr>) \<and>
     run (the (serve c req)) (s\<lparr>blogs := (blogs s)(i := None)\<rparr>) =
       (s\<lparr>blogs := (blogs s)(i := None)\<rparr>, \<lparr>status = 404, json = Msg ''Blog not found''\<rparr>)"
proof -
  let ?q = "req\<lparr>params_id := i\<rparr>"
  have "headers_authorization ?q = Some [bearer_word, tok]"
    using assms(6) by simp
  from authenticate_accepts [OF this assms(7)]
  have auth: "authenticate c ?q = Next (?q\<lparr>userId := Some A\<rparr>)"
    using assms(8) by simp
  let ?P = "Blog_findOneAndDelete i (Some A)
         (\<lambda>found. case found of
            None \<Rightarrow> reply 404 ''Blog not found''
          | Some b \<Rightarrow> Respond \<lparr>status = 200, json = Msg ''Blog deleted''\<rparr>)
         (reply 500 ''Server error'')"
  have served: "serve c req = Some ?P"
    using serve_delete_blog [OF assms(3-5), of c] auth by (simp add: delete_blog_def)
  have r1: "run ?P s = (s, \<lparr>status = 404, json = Msg ''Blog not found''\<rparr>)"
    using assms(1,2) by (simp add: findOneAndDelete_def run_reply)
  have r2: "run ?P (s\<lparr>blogs := (blogs s)(i := None)\<rparr>)
      = (s\<lparr>blogs := (blogs s)(i := None)\<rparr>, \<lparr>status = 404, json = Msg ''Blog not found''\<rparr>)"
    by (simp add: findOneAndDelete_def run_reply)
  show ?thesis
    using served r1 r2 by simp
qed

text \<open>Alice, with a valid token, asks for the deletion of Bob's blog.\<close>

theorem delete_blog_of_other_owner_witness:
  "blogs (sample_store (sample_event 1 [])) blog1 = Some sample_blog \<and>
   author sample_blog \<noteq> Some alice_id \<and>
   jwt_verify (sample_token 100) (SECRET_KEY (sample_ctx 200)) (clock (sample_ctx 200)) =
     Inr \<lparr>jwt_userId = alice_id, iat = 100, exp = 3700\<rparr> \<and>
   run (the (serve (sample_ctx 200) (delete_request (sample_token 100))))
      (sample_store (sample_event 1 [])) =
     (sample_store (sample_event 1 []), \<lparr>status = 404, json = Msg ''Blog not found''\<rparr>)"
proof -
  have h1: "blogs (sample_store (sample_event 1 [])) blog1 = Some sample_blog"
    by (simp add: sample_store_def)
  have h2: "author sample_blog \<noteq> Some alice_id"
    by (simp add: sample_blog_def alice_id_def bob_id_def)
  have h3: "blog1 \<noteq> []"
    by simp
  have h4: "req_method (delete_request (sample_token 100)) = DELETE"
    by (simp add: delete_request_def sample_request_def)
  have h5: "req_path (delete_request (sample_token 100)) = [''api'', ''blogs'', blog1]"
    by (simp add: delete_request_def sample_request_def)
  have h6: "headers_authorization (delete_request (sample_token 100))
      = Some [Raw ''Bearer'', sample_token 100]"
    by (simp add: delete_request_def sample_request_def bearer_def)
  have h7: "jwt_verify (sample_token 100) (SECRET_KEY (sample_ctx 200)) (clock (sample_ctx 200)) =
     Inr \<lparr>jwt_userId = alice_id, iat = 100, exp = 3700\<rparr>"
    by (simp add: sample_token_def jwt_sign_def expiresIn_def sample_ctx_def SECRET_KEY_def)
  have h8: "jwt_userId \<lparr>jwt_userId = alice_id, iat = 100, exp = 3700\<rparr> = alice_id"
    by simp
  note t = delete_blog_of_other_owner [OF h1 h2 h3 h4 h5 h6 h7 h8]
  show ?thesis
    using h1 h2 h7 t [THEN conjunct2, THEN conjunct1] by (intro conjI)
qed

subsection \<open>Rejected tokens\<close>

text \<open>
  Claim C6, as the code has it: \<^verbatim>\<open>authenticate\<close> has one \<^verbatim>\<open>catch\<close> for every
  failure of the verification. A token, not empty, whose verification fails, for whichever
  cause, is answered 401 ``Invalid token''; whatever handlers follow the middleware, none
  of them runs, no store call is issued and the store is unchanged.
\<close>

theorem invalid_token_one_answer:
  assumes "headers_authorization req = Some (b # tok # rest)"
    and "tok \<noteq> Raw []"
    and "jwt_verify tok (SECRET_KEY c) (clock c) = Inl e"
  shows "serve_stack ((i, authenticate) # hs) c req = reply 401 ''Invalid token'' \<and>
     run (serve_stack ((i, authenticate) # hs) c req) s =
       (s, \<lparr>status = 401, json = Msg ''Invalid token''\<rparr>)"
proof -
  have "headers_authorization (req\<lparr>params_id := i\<rparr>) = Some (b # tok # rest)"
    using assms(1) by simp
  from authenticate_rejects [OF this assms(2,3)]
  have "serve_stack ((i, authenticate) # hs) c req = reply 401 ''Invalid token''"
    by (simp add: chain_reply)
  then show ?thesis
    by (simp add: run_reply)
qed

text \<open>A token presented at the very second of its expiry, on the delete route.\<close>

theorem invalid_token_one_answer_witness:
  "jwt_verify (sample_token 0) (SECRET_KEY (sample_ctx 3600)) (clock (sample_ctx 3600))
     = Inl TokenExpiredError \<and>
   run (serve_stack [(blog1, authenticate), (blog1, delete_blog)] (sample_ctx 3600)
          (delete_request (sample_token 0))) (sample_store (sample_event 1 [])) =
     (sample_store (sample_event 1 []), \<lparr>status = 401, json = Msg ''Invalid token''\<rparr>)"
proof -
  have h1: "headers_authorization (delete_request (sample_token 0))
      = Some (Raw ''Bearer'' # sample_token 0 # [])"
    by (simp add: delete_request_def sample_request_def bearer_def)
  have h2: "sample_token 0 \<noteq> Raw []"
    by (simp add: sample_token_def jwt_sign_def)
  have h3: "jwt_verify (sample_token 0) (SECRET_KEY (sample_ctx 3600)) (clock (sample_ctx 3600))
     = Inl TokenExpiredError"
    by (simp add: sample_token_def jwt_sign_def expiresIn_def sample_ctx_def SECRET_KEY_def)
  note t = invalid_token_one_answer [OF h1 h2 h3, of "blog1" "[(blog1, delete_blog)]"]
  show ?thesis
    using h3 t [THEN conjunct2] by (intro conjI)
qed

text \<open>
  The claim as stated fails: the library tells a malformed token from an expired one,
  but the middleware gives both the same answer.
\<close>

theorem malformed_and_expired_counterexample:
  "jwt_verify (Raw ''garbage'') (SECRET_KEY (sample_ctx 5000)) (clock (sample_ctx 5000))
     = Inl JsonWebTokenError \<and>
   jwt_verify (jwt_sign alice_id (SECRET_KEY (sample_ctx 0)) expiresIn (clock (sample_ctx 0)))
      (SECRET_KEY (sample_ctx 5000)) (clock (sample_ctx 5000)) = Inl TokenExpiredError \<and>
   authenticate (sample_ctx 5000)
      (sample_request DELETE [''api'', ''blogs'', blog1] (bearer (Raw ''garbage'')) Map.empty) =
   authenticate (sample_ctx 5000)
      (sample_request DELETE [''api'', ''blogs'', blog1]
         (bearer (jwt_sign alice_id (SECRET_KEY (sample_ctx 0)) expiresIn (clock (sample_ctx 0))))
         Map.empty)"
  by (simp add: authenticate_def sample_request_def sample_ctx_def bearer_def jwt_sign_def
      expiresIn_def SECRET_KEY_def)

subsection \<open>Validation of the identity\<close>

text \<open>
  Claim C7, as the code has it: the form of \<^verbatim>\<open>userId\<close> is checked after the event
  has been looked up and after the capacity check. A call whose \<^verbatim>\<open>userId\<close> is not a
  well-formed ObjectId never changes the store; it is answered 500 when the event id is
  not well-formed, 404 when the event does not exist, 400 ``No available seats'' when
  \<^verbatim>\<open>availableSeats <= 0\<close>, and 400 ``Invalid userId'' otherwise. The handler never
  consults the users: the outcome of every call, whatever its \<^verbatim>\<open>userId\<close>, is the same
  whatever the \<^verbatim>\<open>users\<close> collection holds.
\<close>

theorem register_invalid_userId:
  "(\<not> ObjectId_isValid (body req ''userId'') \<longrightarrow>
      run (register_first c req) s =
        (s, if \<not> ObjectId_isValid (Some (params_id req))
            then \<lparr>status = 500, json = Msg ''Error registering for event''\<rparr>
            else
              (case events s (params_id req) of
                 None \<Rightarrow> \<lparr>status = 404, json = Msg ''Event not found''\<rparr>
               | Some e \<Rightarrow>
                   if le_zero (availableSeats e)
                   then \<lparr>status = 400, json = Msg ''No available seats''\<rparr>
                   else \<lparr>status = 400, json = Msg ''Invalid userId''\<rparr>))) \<and>
   run (register_first c' req') (s\<lparr>users := us\<rparr>) =
     ((fst (run (register_first c' req') s))\<lparr>users := us\<rparr>,
      snd (run (register_first c' req') s))"
  by (simp add: run_register_first_eq split: option.split)

text \<open>
  An ill-formed \<^verbatim>\<open>userId\<close> on an event with two seats; and the registration of an
  identity when the users collection is empty.
\<close>

theorem register_invalid_userId_witness:
  "\<not> ObjectId_isValid (body (register_request ''nope'') ''userId'') \<and>
   run (register_first (sample_ctx 0) (register_request ''nope'')) (sample_store (sample_event 2 [])) =
     (sample_store (sample_event 2 []), \<lparr>status = 400, json = Msg ''Invalid userId''\<rparr>) \<and>
   run (register_first (sample_ctx 0) (register_request alice_id))
       ((sample_store (sample_event 2 []))\<lparr>users := []\<rparr>) =
     ((sample_store (sample_event 1 [Some alice_id]))\<lparr>users := []\<rparr>,
      \<lparr>status = 200, json = MsgEvent ''Registration successful'' (sample_event 1 [Some alice_id])\<rparr>)"
proof -
  have h: "\<not> ObjectId_isValid (body (register_request ''nope'') ''userId'')"
    by (simp add: body_register_request invalid_nope)
  note t = register_invalid_userId [of "register_request ''nope''" "sample_ctx 0"
      "sample_store (sample_event 2 [])" "sample_ctx 0" "register_request alice_id" "[]"]
  have a: "run (register_first (sample_ctx 0) (register_request ''nope''))
      (sample_store (sample_event 2 [])) =
     (sample_store (sample_event 2 []), \<lparr>status = 400, json = Msg ''Invalid userId''\<rparr>)"
    using t [THEN conjunct1] h
    by (simp add: params_register_request valid_event1 events_sample_store sample_event_def)
  have r: "run (register_first (sample_ctx 0) (register_request alice_id))
      (sample_store (sample_event 2 [])) =
     (sample_store (sample_event 1 [Some alice_id]),
      \<lparr>status = 200, json = MsgEvent ''Registration successful'' (sample_event 1 [Some alice_id])\<rparr>)"
    by (simp add: run_register_first_eq params_register_request body_register_request valid_event1
        sample_store_def sample_event_def valid_alice ObjectId_alice minus_one_2)
  have b: "run (register_first (sample_ctx 0) (register_request alice_id))
       ((sample_store (sample_event 2 []))\<lparr>users := []\<rparr>) =
     ((sample_store (sample_event 1 [Some alice_id]))\<lparr>users := []\<rparr>,
      \<lparr>status = 200, json = MsgEvent ''Registration successful'' (sample_event 1 [Some alice_id])\<rparr>)"
    unfolding t [THEN conjunct2] r by simp
  show ?thesis
    using h a b by (intro conjI)
qed

text \<open>
  The claim as stated fails: on a sold-out event an ill-formed \<^verbatim>\<open>userId\<close> is answered
  by the capacity check, not by the validation; and a well-formed identity that no user
  has is registered.
\<close>

theorem register_validation_order_counterexample:
  "\<not> ObjectId_isValid (body (register_request ''nope'') ''userId'') \<and>
   run (register_first (sample_ctx 0) (register_request ''nope'')) (sample_store (sample_event 0 [])) =
     (sample_store (sample_event 0 []), \<lparr>status = 400, json = Msg ''No available seats''\<rparr>) \<and>
   bob_id \<notin> set (map user_id (users (sample_store (sample_event 1 [])))) \<and>
   run (register_first (sample_ctx 0) (register_request bob_id)) (sample_store (sample_event 1 [])) =
     (sample_store (sample_event 0 [Some bob_id]),
      \<lparr>status = 200, json = MsgEvent ''Registration successful'' (sample_event 0 [Some bob_id])\<rparr>)"
proof -
  have a: "\<not> ObjectId_isValid (body (register_request ''nope'') ''userId'')"
    by (simp add: body_register_request invalid_nope)
  have b: "run (register_first (sample_ctx 0) (register_request ''nope''))
      (sample_store (sample_event 0 [])) =
     (sample_store (sample_event 0 []), \<lparr>status = 400, json = Msg ''No available seats''\<rparr>)"
    by (simp add: run_register_first_eq params_register_request valid_event1 events_sample_store
        sample_event_def)
  have c: "bob_id \<notin> set (map user_id (users (sample_store (sample_event 1 []))))"
    by (simp add: sample_store_def sample_user_def alice_id_def bob_id_def)
  have d: "run (register_first (sample_ctx 0) (register_request bob_id))
      (sample_store (sample_event 1 [])) =
     (sample_store (sample_event 0 [Some bob_id]),
      \<lparr>status = 200, json = MsgEvent ''Registration successful'' (sample_event 0 [Some bob_id])\<rparr>)"
    by (simp add: run_register_first_eq body_register_request params_register_request valid_event1
        valid_bob ObjectId_bob sample_store_def sample_event_def minus_one_1)
  show ?thesis
    using a b c d by (intro conjI)
qed

subsection \<open>Login failures\<close>

text \<open>
  A login for an email that no user has and a login for the email of a user with a
  password, given as a string, that does not match are answered alike, with status 401
  and the message ``Invalid email or password'', and neither changes the store.
\<close>

lemma login_wrong_password_same_answer:
  assumes "findOne_email s (body req1 ''email'') = None"
    and "findOne_email s (body req2 ''email'') = Some u"
    and "body req2 ''password'' = Some pw"
    and "\<not> bcrypt_compare pw (password u)"
  shows "run (login c1 req1) s = (s, \<lparr>status = 401, json = Msg ''Invalid email or password''\<rparr>) \<and>
     run (login c2 req2) s = (s, \<lparr>status = 401, json = Msg ''Invalid email or password''\<rparr>)"
  using assms by (simp add: run_login_eq)

text \<open>
  Claim C8 (two failed logins, one for an email that no user has and one for the email of
  a user whose password does not match, get the same response, so that the response
  reveals nothing about the existence of an account). The handler gives both of its
  refusals the same status and message, but a request with no password is not refused by
  either: for the email of a user, \<^verbatim>\<open>bcrypt.compare\<close> rejects and the \<^verbatim>\<open>catch\<close>
  answers 500, while for an email that no user has the answer is 401.
\<close>

theorem login_without_password_reveals_account:
  "body (login_request_without_password ''alice@example.org'') ''password'' = None \<and>
   run (login (sample_ctx 7) (login_request_without_password ''alice@example.org''))
      (sample_store (sample_event 1 [])) =
     (sample_store (sample_event 1 []),
      \<lparr>status = 500, json = Msg ''Server error during login''\<rparr>) \<and>
   run (login (sample_ctx 7) (login_request_without_password ''carol@example.org''))
      (sample_store (sample_event 1 [])) =
     (sample_store (sample_event 1 []),
      \<lparr>status = 401, json = Msg ''Invalid email or password''\<rparr>)"
  by (simp add: run_login_eq findOne_email_def login_request_without_password_def
      sample_request_def sample_store_def sample_user_def)

subsection \<open>The two register handlers\<close>



subsection \<open>The effect of a successful registration\<close>

text \<open>
  A register call that runs alone on a whole number of seats, up to \<open>2 ^ 53\<close>, and
  succeeds decrements \<^verbatim>\<open>availableSeats\<close> by exactly one and appends exactly one
  element to \<^verbatim>\<open>registrations\<close>; every other field of the event, every other event and
  the other collections are unchanged, and \<^verbatim>\<open>availableSeats\<close> plus the number of
  registrations is preserved.
\<close>

lemma successful_register_alone:
  assumes "run (register_first c req) s = (s', r)" and "status r = 200"
    and "events s (params_id req) = Some e"
    and "availableSeats e = Finite (of_int n)" and "n \<le> 2 ^ 53"
  shows "\<exists>e'. s' = s\<lparr>events := (events s)(params_id req \<mapsto> e')\<rparr> \<and>
      json r = MsgEvent ''Registration successful'' e' \<and>
      availableSeats e' = Finite (of_int (n - 1)) \<and>
      registrations e' = registrations e @ [ObjectId (body req ''userId'')] \<and>
      length (registrations e') = length (registrations e) + 1 \<and>
      e'\<lparr>availableSeats := availableSeats e, registrations := registrations e\<rparr> = e \<and>
      (n - 1) + int (length (registrations e')) = n + int (length (registrations e))"
proof -
  let ?e' = "e\<lparr>availableSeats := minus_one (availableSeats e),
      registrations := registrations e @ [ObjectId (body req ''userId'')]\<rparr>"
  have ok: "ObjectId_isValid (Some (params_id req)) \<and> \<not> le_zero (availableSeats e) \<and>
      ObjectId_isValid (body req ''userId'') \<and> ge_zero (minus_one (availableSeats e))"
  proof (rule ccontr)
    assume "\<not> ?thesis"
    then have "status r = 400 \<or> status r = 500"
      using assms(1,3) by (auto simp: run_register_first_eq split: if_splits)
    then show False
      using assms(2) by auto
  qed
  then have n: "1 \<le> n"
    using assms(4) by simp
  have m: "minus_one (availableSeats e) = Finite (of_int (n - 1))"
    using minus_one_whole [OF n assms(5)] assms(4) by simp
  have "s' = s\<lparr>events := (events s)(params_id req \<mapsto> ?e')\<rparr>"
    and "json r = MsgEvent ''Registration successful'' ?e'"
    using ok assms(1,3) by (auto simp: run_register_first_eq)
  then show ?thesis
    using m by (intro exI [of _ ?e']) simp
qed

text \<open>
  Claim C10 (every successful register call decrements \<^verbatim>\<open>availableSeats\<close> by exactly
  one and appends exactly one element, so that \<^verbatim>\<open>availableSeats\<close> plus the number of
  registrations is preserved). On an event with one seat, let two requests read before
  either writes, and let the first write: the event then has no seat and one
  registration. The write of the second request is answered ``Registration successful''
  too; it leaves \<^verbatim>\<open>availableSeats\<close> at 0 and appends a second registration.
\<close>

theorem register_interleaved_breaks_sum:
  "events (snd (interleave [0, 1, 0]
        [register_first (sample_ctx 0) (register_request alice_id),
         register_first (sample_ctx 0) (register_request bob_id)]
        (sample_store (sample_event 1 [])))) event1 = Some (sample_event 0 [Some alice_id]) \<and>
   step (fst (interleave [0, 1, 0]
        [register_first (sample_ctx 0) (register_request alice_id),
         register_first (sample_ctx 0) (register_request bob_id)]
        (sample_store (sample_event 1 []))) ! 1)
     (snd (interleave [0, 1, 0]
        [register_first (sample_ctx 0) (register_request alice_id),
         register_first (sample_ctx 0) (register_request bob_id)]
        (sample_store (sample_event 1 [])))) =
   (Respond \<lparr>status = 200,
      json = MsgEvent ''Registration successful'' (sample_event 0 [Some bob_id])\<rparr>,
    sample_store (sample_event 0 [Some alice_id, Some bob_id]))"
  by (simp add: register_first_def register_request_def sample_request_def sample_store_def
      sample_event_def valid_alice valid_bob ObjectId_alice ObjectId_bob save_event_def
      findById_def valid_event1 minus_one_1 reply_def Let_def)

end
